theory Spec2Isabelle
  imports Main "HOL-Library.Multiset"
begin

section \<open>Python values\<close>

text \<open>
  The two modules \<^verbatim>\<open>seller.py\<close> (Ozon) and \<^verbatim>\<open>market.py\<close> (Yandex Market) work on
  the rows of a spreadsheet, read by pandas as dictionaries. A cell is a string, an
  integer, or absent (\<^verbatim>\<open>watch.get(key)\<close> is \<^verbatim>\<open>None\<close> then).

  A Python \<^verbatim>\<open>str\<close> is represented by the list of its UTF-8 bytes. Every byte of a
  multi-byte sequence is at least 0x80, so the ASCII characters the code looks for
  (the dot, the digits, the sign) are found at the same places in both views.

  Exceptions are values: a function that may raise returns \<open>error + 'a\<close>.
\<close>

datatype error = ValueError | TypeError | AttributeError | IndexError | HTTPError

datatype pyval = PyStr string | PyInt int | PyNone

subsection \<open>\<^verbatim>\<open>str(x)\<close>\<close>

definition digit_char :: "nat \<Rightarrow> char" where
  "digit_char d = ''0123456789'' ! d"

fun str_of_nat :: "nat \<Rightarrow> string" where
  "str_of_nat n =
     (if n < 10 then [digit_char n] else str_of_nat (n div 10) @ [digit_char (n mod 10)])"

declare str_of_nat.simps [simp del]

definition str_of_int :: "int \<Rightarrow> string" where
  "str_of_int i = (if i < 0 then CHR ''-'' # str_of_nat (nat (- i)) else str_of_nat (nat i))"

fun py_str :: "pyval \<Rightarrow> string" where
  "py_str (PyStr s) = s"
| "py_str (PyInt i) = str_of_int i"
| "py_str PyNone = ''None''"

subsection \<open>\<^verbatim>\<open>int(x)\<close>\<close>

text \<open>
  \<^verbatim>\<open>int(s)\<close> on a string reads a decimal literal: white space around it is dropped,
  one sign may lead, and the digits may be grouped by single underscores. Anything else
  raises \<^verbatim>\<open>ValueError\<close>. \<^verbatim>\<open>int(None)\<close> raises \<^verbatim>\<open>TypeError\<close>. (The literal is read
  over ASCII: digits and spaces of other scripts are outside this model.)
\<close>

definition is_digit :: "char \<Rightarrow> bool" where
  "is_digit c = (c \<in> set ''0123456789'')"

definition digit_val :: "char \<Rightarrow> nat" where
  "digit_val c = of_char c - 48"

definition is_space :: "char \<Rightarrow> bool" where
  "is_space c = (c \<in> set [CHR '' '', CHR 0x09, CHR 0x0A, CHR 0x0B, CHR 0x0C, CHR 0x0D])"

definition strip :: "string \<Rightarrow> string" where
  "strip s = rev (dropWhile is_space (rev (dropWhile is_space s)))"

fun parse_digits :: "nat \<Rightarrow> string \<Rightarrow> nat option" where
  "parse_digits acc [] = Some acc"
| "parse_digits acc (c # cs) =
     (if is_digit c then parse_digits (10 * acc + digit_val c) cs
      else if c = CHR ''_'' then
        (case cs of
           [] \<Rightarrow> None
         | d # ds \<Rightarrow> if is_digit d then parse_digits (10 * acc + digit_val d) ds else None)
      else None)"

definition parse_literal :: "string \<Rightarrow> nat option" where
  "parse_literal s =
     (case s of
        [] \<Rightarrow> None
      | c # cs \<Rightarrow> if is_digit c then parse_digits (digit_val c) cs else None)"

definition int_of_str :: "string \<Rightarrow> int option" where
  "int_of_str s =
     (case strip s of
        [] \<Rightarrow> None
      | c # cs \<Rightarrow>
          if c = CHR ''-'' then map_option (\<lambda>n. - int n) (parse_literal cs)
          else if c = CHR ''+'' then map_option int (parse_literal cs)
          else map_option int (parse_literal (c # cs)))"

fun py_int :: "pyval \<Rightarrow> error + int" where
  "py_int (PyInt i) = Inr i"
| "py_int (PyStr s) = (case int_of_str s of None \<Rightarrow> Inl ValueError | Some i \<Rightarrow> Inr i)"
| "py_int PyNone = Inl TypeError"

subsection \<open>\<^verbatim>\<open>range\<close>, slices and \<^verbatim>\<open>str.split\<close>\<close>

function range_up :: "int \<Rightarrow> int \<Rightarrow> int \<Rightarrow> int list" where
  "range_up i stop step =
     (if 0 < step \<and> i < stop then i # range_up (i + step) stop step else [])"
  by pat_completeness auto
termination
  by (relation "measure (\<lambda>(i, stop, step). nat (stop - i))") auto

declare range_up.simps [simp del]

function range_down :: "int \<Rightarrow> int \<Rightarrow> int \<Rightarrow> int list" where
  "range_down i stop step =
     (if step < 0 \<and> stop < i then i # range_down (i + step) stop step else [])"
  by pat_completeness auto
termination
  by (relation "measure (\<lambda>(i, stop, step). nat (i - stop))") auto

declare range_down.simps [simp del]

text \<open>\<^verbatim>\<open>range(start, stop, step)\<close>: a zero step raises \<^verbatim>\<open>ValueError\<close>.\<close>

definition py_range :: "int \<Rightarrow> int \<Rightarrow> int \<Rightarrow> error + int list" where
  "py_range start stop step =
     (if step = 0 then Inl ValueError
      else if 0 < step then Inr (range_up start stop step)
      else Inr (range_down start stop step))"

text \<open>\<^verbatim>\<open>lst[i:j]\<close>: a negative bound counts from the end, and both are clipped.\<close>

definition clip_index :: "nat \<Rightarrow> int \<Rightarrow> nat" where
  "clip_index len i = (if i < 0 then nat (int len + i) else min len (nat i))"

definition py_slice :: "'a list \<Rightarrow> int \<Rightarrow> int \<Rightarrow> 'a list" where
  "py_slice lst i j =
     (let a = clip_index (length lst) i; b = clip_index (length lst) j
      in take (b - a) (drop a lst))"

text \<open>\<^verbatim>\<open>s.split(sep)\<close> for a separator of one character: never an empty list.\<close>

fun py_split :: "char \<Rightarrow> string \<Rightarrow> string list" where
  "py_split sep [] = [[]]"
| "py_split sep (c # cs) =
     (if c = sep then [] # py_split sep cs
      else (case py_split sep cs of
              [] \<Rightarrow> [[c]]
            | p # ps \<Rightarrow> (c # p) # ps))"

section \<open>\<^verbatim>\<open>seller.py\<close>\<close>

subsection \<open>\<^verbatim>\<open>price_conversion\<close>\<close>

text \<open>
  \<^verbatim>\<open>return re.sub("[^0-9]", "", price.split(".")[0])\<close>

  Only a string has \<^verbatim>\<open>split\<close>: any other value raises \<^verbatim>\<open>AttributeError\<close>. The
  character class \<^verbatim>\<open>[^0-9]\<close> is every character but the ten ASCII digits.
\<close>

definition re_sub_non_digits :: "string \<Rightarrow> string" where
  "re_sub_non_digits s = filter is_digit s"

fun price_conversion :: "pyval \<Rightarrow> error + string" where
  "price_conversion (PyStr price) =
     (case py_split CHR ''.'' price of
        [] \<Rightarrow> Inl IndexError
      | p # _ \<Rightarrow> Inr (re_sub_non_digits p))"
| "price_conversion _ = Inl AttributeError"

subsection \<open>\<^verbatim>\<open>divide\<close>\<close>

text \<open>
  \<^verbatim>\<open>for i in range(0, len(lst), n): yield lst[i: i + n]\<close>

  Every caller consumes the generator at once with \<^verbatim>\<open>list(divide(...))\<close>, so the
  model returns the list of the chunks, or the exception \<^verbatim>\<open>range\<close> raises.
\<close>

definition divide :: "'a list \<Rightarrow> int \<Rightarrow> error + 'a list list" where
  "divide lst n =
     (case py_range 0 (int (length lst)) n of
        Inl e \<Rightarrow> Inl e
      | Inr is \<Rightarrow> Inr (map (\<lambda>i. py_slice lst i (i + n)) is))"

subsection \<open>\<^verbatim>\<open>create_stocks\<close>\<close>

text \<open>
  A row of the inventory: the cells under the three headers the code reads. The
  headers are Russian words, written here in Latin letters: \<open>Kod\<close> (code),
  \<open>Kolichestvo\<close> (quantity) and \<open>Tsena\<close> (price). A missing cell is \<open>PyNone\<close>.
\<close>

record watch =
  Kod :: pyval
  Kolichestvo :: pyval
  Tsena :: pyval

record stock_rec =
  offer_id :: string
  stock :: int

text \<open>
  Lines 178 to 184, the same in both modules:
  \<^verbatim>\<open>
  count = str(watch.get(Kolichestvo))
  if count == ">10": stock = 100
  elif count == "1": stock = 0
  else: stock = int(watch.get(Kolichestvo))
  \<close>
\<close>

definition quantity_stock :: "pyval \<Rightarrow> error + int" where
  "quantity_stock q =
     (let count = py_str q
      in if count = ''>10'' then Inr 100
         else if count = ''1'' then Inr 0
         else py_int q)"

text \<open>
  The first loop. \<^verbatim>\<open>offer_ids\<close> is the caller's list, changed in place by
  \<^verbatim>\<open>offer_ids.remove\<close> (which deletes the first occurrence), so the model returns
  it next to the result, also when an exception leaves the loop.
\<close>

fun stocks_loop ::
  "watch list \<Rightarrow> stock_rec list \<Rightarrow> string list \<Rightarrow> (error + stock_rec list) \<times> string list"
where
  "stocks_loop [] stocks offer_ids = (Inr stocks, offer_ids)"
| "stocks_loop (watch # rest) stocks offer_ids =
     (if py_str (Kod watch) \<in> set offer_ids then
        (case quantity_stock (Kolichestvo watch) of
           Inl e \<Rightarrow> (Inl e, offer_ids)
         | Inr n \<Rightarrow>
             stocks_loop rest
               (stocks @ [\<lparr>offer_id = py_str (Kod watch), stock = n\<rparr>])
               (remove1 (py_str (Kod watch)) offer_ids))
      else stocks_loop rest stocks offer_ids)"

definition create_stocks ::
  "watch list \<Rightarrow> string list \<Rightarrow> (error + stock_rec list) \<times> string list"
where
  "create_stocks watch_remnants offer_ids =
     (case stocks_loop watch_remnants [] offer_ids of
        (Inl e, ids) \<Rightarrow> (Inl e, ids)
      | (Inr stocks, ids) \<Rightarrow>
          (Inr (stocks @ map (\<lambda>i. \<lparr>offer_id = i, stock = 0\<rparr>) ids), ids))"

subsection \<open>\<^verbatim>\<open>create_prices\<close>\<close>

record price_rec =
  auto_action_enabled :: string
  currency_code :: string
  price_offer_id :: string
  old_price :: string
  price :: string



subsection \<open>\<^verbatim>\<open>update_stocks\<close> and \<^verbatim>\<open>upload_stocks\<close>\<close>

text \<open>
  The marketplace is reached over HTTP. The world keeps the payloads sent so far, in
  order, and the state of the server; \<open>respond\<close> is the server: it answers a payload
  with a result or with the error that \<^verbatim>\<open>requests\<close> or \<^verbatim>\<open>raise_for_status\<close> raises,
  and moves to its next state. The credentials every call passes on are part of
  \<open>respond\<close>.
\<close>

record ('q, 's) world =
  posted :: "'q list"
  server :: 's

definition http_send ::
  "('q \<Rightarrow> 's \<Rightarrow> (error + 'r) \<times> 's) \<Rightarrow> 'q \<Rightarrow> ('q, 's) world \<Rightarrow> (error + 'r) \<times> ('q, 's) world"
where
  "http_send respond q w =
     (case respond q (server w) of
        (r, sv) \<Rightarrow> (r, \<lparr>posted = posted w @ [q], server = sv\<rparr>))"

definition update_stocks ::
  "(stock_rec list \<Rightarrow> 's \<Rightarrow> (error + 'r) \<times> 's) \<Rightarrow> stock_rec list \<Rightarrow>
   (stock_rec list, 's) world \<Rightarrow> (error + 'r) \<times> (stock_rec list, 's) world"
where
  "update_stocks respond stocks w = http_send respond stocks w"

text \<open>
  \<^verbatim>\<open>for some in list(divide(xs, n)): update(some, ...)\<close>: the calls one after the
  other, left at the first exception.
\<close>

fun submit_all ::
  "('b \<Rightarrow> 'w \<Rightarrow> (error + 'r) \<times> 'w) \<Rightarrow> 'b list \<Rightarrow> 'w \<Rightarrow> (error + unit) \<times> 'w"
where
  "submit_all update [] w = (Inr (), w)"
| "submit_all update (b # bs) w =
     (case update b w of
        (Inl e, w') \<Rightarrow> (Inl e, w')
      | (Inr _, w') \<Rightarrow> submit_all update bs w')"

text \<open>
  \<^verbatim>\<open>get_offer_ids\<close> pages through the catalogue of the marketplace; it is a
  parameter here: from a world, the list of the offer ids or an exception.
\<close>

definition upload_stocks ::
  "((stock_rec list, 's) world \<Rightarrow> (error + string list) \<times> (stock_rec list, 's) world) \<Rightarrow>
   (stock_rec list \<Rightarrow> 's \<Rightarrow> (error + 'r) \<times> 's) \<Rightarrow> watch list \<Rightarrow>
   (stock_rec list, 's) world \<Rightarrow>
   (error + stock_rec list \<times> stock_rec list) \<times> (stock_rec list, 's) world"
where
  "upload_stocks get_offer_ids respond watch_remnants w =
     (case get_offer_ids w of
        (Inl e, w1) \<Rightarrow> (Inl e, w1)
      | (Inr offer_ids, w1) \<Rightarrow>
          (case create_stocks watch_remnants offer_ids of
             (Inl e, _) \<Rightarrow> (Inl e, w1)
           | (Inr stocks, _) \<Rightarrow>
               (case divide stocks 100 of
                  Inl e \<Rightarrow> (Inl e, w1)
                | Inr batches \<Rightarrow>
                    (case submit_all (update_stocks respond) batches w1 of
                       (Inl e, w2) \<Rightarrow> (Inl e, w2)
                     | (Inr _, w2) \<Rightarrow>
                         (Inr (filter (\<lambda>st. stock st \<noteq> 0) stocks, stocks), w2)))))"

section \<open>\<^verbatim>\<open>market.py\<close>\<close>

record market_item =
  count :: int
  item_type :: string
  updatedAt :: string

record market_stock =
  sku :: string
  warehouseId :: string
  items :: "market_item list"

text \<open>
  \<^verbatim>\<open>create_stocks(watch_remnants, offer_ids, warehouse_id)\<close> of \<^verbatim>\<open>market.py\<close>.
  \<open>date\<close> is the clock reading \<^verbatim>\<open>datetime.datetime.utcnow()\<close>, formatted, taken once
  before the loop.
\<close>

definition market_stock_of :: "string \<Rightarrow> string \<Rightarrow> string \<Rightarrow> int \<Rightarrow> market_stock" where
  "market_stock_of warehouse_id date code n =
     \<lparr>sku = code, warehouseId = warehouse_id,
      items = [\<lparr>count = n, item_type = ''FIT'', updatedAt = date\<rparr>]\<rparr>"

fun market_stocks_loop ::
  "string \<Rightarrow> string \<Rightarrow> watch list \<Rightarrow> market_stock list \<Rightarrow> string list \<Rightarrow>
   (error + market_stock list) \<times> string list"
where
  "market_stocks_loop warehouse_id date [] stocks offer_ids = (Inr stocks, offer_ids)"
| "market_stocks_loop warehouse_id date (watch # rest) stocks offer_ids =
     (if py_str (Kod watch) \<in> set offer_ids then
        (case quantity_stock (Kolichestvo watch) of
           Inl e \<Rightarrow> (Inl e, offer_ids)
         | Inr n \<Rightarrow>
             market_stocks_loop warehouse_id date rest
               (stocks @ [market_stock_of warehouse_id date (py_str (Kod watch)) n])
               (remove1 (py_str (Kod watch)) offer_ids))
      else market_stocks_loop warehouse_id date rest stocks offer_ids)"

definition market_create_stocks ::
  "string \<Rightarrow> watch list \<Rightarrow> string list \<Rightarrow> string \<Rightarrow>
   (error + market_stock list) \<times> string list"
where
  "market_create_stocks date watch_remnants offer_ids warehouse_id =
     (case market_stocks_loop warehouse_id date watch_remnants [] offer_ids of
        (Inl e, ids) \<Rightarrow> (Inl e, ids)
      | (Inr stocks, ids) \<Rightarrow>
          (Inr (stocks @ map (\<lambda>i. market_stock_of warehouse_id date i 0) ids), ids))"





definition market_update_stocks ::
  "(market_stock list \<Rightarrow> 's \<Rightarrow> (error + 'r) \<times> 's) \<Rightarrow> market_stock list \<Rightarrow>
   (market_stock list, 's) world \<Rightarrow> (error + 'r) \<times> (market_stock list, 's) world"
where
  "market_update_stocks respond stocks w = http_send respond stocks w"

text \<open>
  \<^verbatim>\<open>filter(lambda stock: (stock.get("items")[0].get("count") != 0), stocks)\<close>;
  \<^verbatim>\<open>[0]\<close> raises \<^verbatim>\<open>IndexError\<close> on an empty list.
\<close>

fun market_not_empty :: "market_stock list \<Rightarrow> error + market_stock list" where
  "market_not_empty [] = Inr []"
| "market_not_empty (st # rest) =
     (case items st of
        [] \<Rightarrow> Inl IndexError
      | it # _ \<Rightarrow>
          (case market_not_empty rest of
             Inl e \<Rightarrow> Inl e
           | Inr r \<Rightarrow> Inr (if count it \<noteq> 0 then st # r else r)))"

definition market_upload_stocks ::
  "((market_stock list, 's) world \<Rightarrow> (error + string list) \<times> (market_stock list, 's) world) \<Rightarrow>
   (market_stock list \<Rightarrow> 's \<Rightarrow> (error + 'r) \<times> 's) \<Rightarrow> string \<Rightarrow> watch list \<Rightarrow> string \<Rightarrow>
   (market_stock list, 's) world \<Rightarrow>
   (error + market_stock list \<times> market_stock list) \<times> (market_stock list, 's) world"
where
  "market_upload_stocks get_offer_ids respond date watch_remnants warehouse_id w =
     (case get_offer_ids w of
        (Inl e, w1) \<Rightarrow> (Inl e, w1)
      | (Inr offer_ids, w1) \<Rightarrow>
          (case market_create_stocks date watch_remnants offer_ids warehouse_id of
             (Inl e, _) \<Rightarrow> (Inl e, w1)
           | (Inr stocks, _) \<Rightarrow>
               (case divide stocks 2000 of
                  Inl e \<Rightarrow> (Inl e, w1)
                | Inr batches \<Rightarrow>
                    (case submit_all (market_update_stocks respond) batches w1 of
                       (Inl e, w2) \<Rightarrow> (Inl e, w2)
                     | (Inr _, w2) \<Rightarrow>
                         (case market_not_empty stocks of
                            Inl e \<Rightarrow> (Inl e, w2)
                          | Inr not_empty \<Rightarrow> (Inr (not_empty, stocks), w2))))))"

section \<open>Reference functions\<close>

text \<open>
  What the batcher is meant to compute, written directly: cut \<open>m\<close> elements off
  the front until nothing is left.
\<close>

function chunks :: "nat \<Rightarrow> 'a list \<Rightarrow> 'a list list" where
  "chunks m xs = (if m = 0 \<or> xs = [] then [] else take m xs # chunks m (drop m xs))"
  by pat_completeness auto
termination
  by (relation "measure (\<lambda>(m, xs). length xs)") auto

declare chunks.simps [simp del]

text \<open>The code of a row, as both modules compute it: \<^verbatim>\<open>str(watch.get(Kod))\<close>.\<close>

abbreviation watch_code :: "watch \<Rightarrow> string" where
  "watch_code w \<equiv> py_str (Kod w)"


text \<open>The record \<^verbatim>\<open>market.py\<close> builds where \<^verbatim>\<open>seller.py\<close> builds \<open>r\<close>.\<close>

definition to_market :: "string \<Rightarrow> string \<Rightarrow> stock_rec \<Rightarrow> market_stock" where
  "to_market warehouse_id date r = market_stock_of warehouse_id date (offer_id r) (stock r)"

text \<open>
  The end-to-end scenario of the specification: two rows, \<^verbatim>\<open>A1\<close> with more than ten
  pieces and \<^verbatim>\<open>A2\<close> with one (here a cell that holds the integer 1, as a spreadsheet
  gives it), and a marketplace that lists \<^verbatim>\<open>A1\<close>, \<^verbatim>\<open>A2\<close>, \<^verbatim>\<open>A3\<close>.
\<close>

definition example_inventory :: "watch list" where
  "example_inventory =
     [\<lparr>Kod = PyStr ''A1'', Kolichestvo = PyStr ''>10'', Tsena = PyStr ''500.00''\<rparr>,
      \<lparr>Kod = PyStr ''A2'', Kolichestvo = PyInt 1, Tsena = PyStr ''1200.50''\<rparr>]"

definition example_offer_ids :: "string list" where
  "example_offer_ids = [''A1'', ''A2'', ''A3'']"

definition example_stocks :: "stock_rec list" where
  "example_stocks =
     [\<lparr>offer_id = ''A1'', stock = 100\<rparr>, \<lparr>offer_id = ''A2'', stock = 0\<rparr>,
      \<lparr>offer_id = ''A3'', stock = 0\<rparr>]"


text \<open>
  A marketplace for the failure scenario of the specification: its catalogue lists
  \<open>n\<close> offers, numbered from 0, none of them in the inventory, and its server answers
  the second request it gets with an error.
\<close>

definition numbered_ids :: "nat \<Rightarrow> string list" where
  "numbered_ids n = map str_of_nat [0..<n]"

definition zero_stocks :: "nat \<Rightarrow> stock_rec list" where
  "zero_stocks n = map (\<lambda>i. \<lparr>offer_id = i, stock = 0\<rparr>) (numbered_ids n)"

definition catalogue :: "string list \<Rightarrow> 'w \<Rightarrow> (error + string list) \<times> 'w" where
  "catalogue ids w = (Inr ids, w)"

definition second_fails :: "'q \<Rightarrow> nat \<Rightarrow> (error + unit) \<times> nat" where
  "second_fails q k = (if k = 1 then Inl HTTPError else Inr (), Suc k)"

definition seller_batches :: "stock_rec list list" where
  "seller_batches = [take 100 (zero_stocks 101), drop 100 (zero_stocks 101)]"

definition market_zero_stocks :: "market_stock list" where
  "market_zero_stocks = map (to_market ''w1'' ''2026-01-01T00:00:00Z'') (zero_stocks 2001)"

definition market_batches :: "market_stock list list" where
  "market_batches = [take 2000 market_zero_stocks, drop 2000 market_zero_stocks]"

definition seller_world :: "(stock_rec list, nat) world" where
  "seller_world = \<lparr>posted = [], server = 0\<rparr>"

definition market_world :: "(market_stock list, nat) world" where
  "market_world = \<lparr>posted = [], server = 0\<rparr>"

section \<open>The batcher\<close>

lemma chunks_Nil: "chunks m [] = []"
  by (subst chunks.simps) simp

lemma concat_chunks: "0 < m \<Longrightarrow> concat (chunks m xs) = xs"
proof (induction m xs rule: chunks.induct)
  case (1 m xs)
  show ?case
  proof (cases "xs = []")
    case True
    then show ?thesis by (subst chunks.simps) simp
  next
    case False
    with 1 show ?thesis by (subst chunks.simps) simp
  qed
qed

lemma chunks_lengths: "c \<in> set (chunks m xs) \<Longrightarrow> 1 \<le> length c \<and> length c \<le> m"
proof (induction m xs rule: chunks.induct)
  case (1 m xs)
  show ?case
  proof (cases "m = 0 \<or> xs = []")
    case True
    with "1.prems" show ?thesis by (simp add: chunks.simps [of m xs])
  next
    case False
    with "1.prems" have "c = take m xs \<or> c \<in> set (chunks m (drop m xs))"
      by (simp add: chunks.simps [of m xs])
    then show ?thesis
    proof
      assume "c = take m xs"
      with False show ?thesis by (cases xs) auto
    next
      assume "c \<in> set (chunks m (drop m xs))"
      with False "1.IH" show ?thesis by simp
    qed
  qed
qed

lemma chunks_butlast: "c \<in> set (butlast (chunks m xs)) \<Longrightarrow> length c = m"
proof (induction m xs rule: chunks.induct)
  case (1 m xs)
  show ?case
  proof (cases "m = 0 \<or> xs = []")
    case True
    with "1.prems" show ?thesis by (simp add: chunks.simps [of m xs])
  next
    case False
    show ?thesis
    proof (cases "chunks m (drop m xs) = []")
      case True
      with False "1.prems" show ?thesis by (simp add: chunks.simps [of m xs])
    next
      case ne: False
      then have "drop m xs \<noteq> []" by (auto simp: chunks.simps [of m "drop m xs"])
      then have len: "m < length xs" by simp
      from False ne "1.prems" have "c = take m xs \<or> c \<in> set (butlast (chunks m (drop m xs)))"
        by (simp add: chunks.simps [of m xs])
      then show ?thesis
      proof
        assume "c = take m xs"
        with len show ?thesis by simp
      next
        assume "c \<in> set (butlast (chunks m (drop m xs)))"
        with False "1.IH" show ?thesis by simp
      qed
    qed
  qed
qed

lemma slice_chunk:
  assumes "i < length lst" "0 < m"
  shows "py_slice lst (int i) (int i + int m) = take m (drop i lst)"
proof -
  have "int i + int m = int (i + m)" by simp
  then have "py_slice lst (int i) (int i + int m)
      = take (min (length lst) (i + m) - i) (drop i lst)"
    using assms unfolding py_slice_def clip_index_def Let_def
    by (simp only: nat_int of_nat_less_0_iff if_False min_absorb2 less_imp_le)
  also have "\<dots> = take m (drop i lst)"
    using assms by (cases "i + m \<le> length lst") (simp_all add: min_def)
  finally show ?thesis .
qed

lemma range_up_chunks:
  assumes "0 < m"
  shows "map (\<lambda>j. py_slice lst j (j + int m)) (range_up (int i) (int (length lst)) (int m))
         = chunks m (drop i lst)"
  using assms
proof (induction "length lst - i" arbitrary: i rule: less_induct)
  case less
  show ?case
  proof (cases "i < length lst")
    case True
    have "length lst - (i + m) < length lst - i" using True less.prems by simp
    from less.hyps [OF this less.prems]
    have IH: "map (\<lambda>j. py_slice lst j (j + int m)) (range_up (int (i + m)) (int (length lst)) (int m))
         = chunks m (drop (i + m) lst)" .
    have r: "range_up (int i) (int (length lst)) (int m)
        = int i # range_up (int (i + m)) (int (length lst)) (int m)"
      using True less.prems by (subst range_up.simps) (simp add: add.commute)
    have c: "chunks m (drop i lst) = take m (drop i lst) # chunks m (drop (i + m) lst)"
      using True less.prems by (subst chunks.simps) (simp add: add.commute)
    show ?thesis
      using True less.prems unfolding r c by (simp only: list.map IH slice_chunk)
  next
    case False
    then show ?thesis
      by (simp add: range_up.simps [of "int i"] chunks_Nil)
  qed
qed

lemma divide_chunks: "0 < n \<Longrightarrow> divide lst n = Inr (chunks (nat n) lst)"
  using range_up_chunks [of "nat n" lst 0]
  by (simp add: divide_def py_range_def)


text \<open>
  C5. For a size of at least 1, \<^verbatim>\<open>divide\<close> returns chunks whose concatenation is the
  input list (so they are contiguous and in order); every chunk but the last has exactly
  \<open>n\<close> elements, the last has between 1 and \<open>n\<close>; the empty list gives no chunk.
\<close>

theorem divide_chunking:
  assumes "1 \<le> n"
  shows "\<exists>cs. divide lst n = Inr cs \<and> concat cs = lst
              \<and> (\<forall>c \<in> set (butlast cs). int (length c) = n)
              \<and> (cs \<noteq> [] \<longrightarrow> 1 \<le> length (last cs) \<and> int (length (last cs)) \<le> n)
              \<and> (lst = [] \<longrightarrow> cs = [])"
proof -
  from assms have n: "0 < n" "0 < nat n" by simp_all
  let ?cs = "chunks (nat n) lst"
  have "divide lst n = Inr ?cs" using n by (simp add: divide_chunks)
  moreover have "concat ?cs = lst" using n by (simp add: concat_chunks)
  moreover have "\<forall>c \<in> set (butlast ?cs). int (length c) = n"
    using n by (auto dest: chunks_butlast)
  moreover have "?cs \<noteq> [] \<longrightarrow> 1 \<le> length (last ?cs) \<and> int (length (last ?cs)) \<le> n"
  proof
    assume "?cs \<noteq> []"
    then have "last ?cs \<in> set ?cs" by simp
    from chunks_lengths [OF this] n show "1 \<le> length (last ?cs) \<and> int (length (last ?cs)) \<le> n"
      by auto
  qed
  moreover have "lst = [] \<longrightarrow> ?cs = []" by (simp add: chunks_Nil)
  ultimately show ?thesis by blast
qed

theorem divide_chunking_witness:
  "(1::int) \<le> 2 \<and> divide [1, 2, 3, 4, 5 :: nat] 2 = Inr [[1, 2], [3, 4], [5]]
   \<and> (\<exists>cs. divide [1, 2, 3, 4, 5 :: nat] 2 = Inr cs \<and> concat cs = [1, 2, 3, 4, 5]
         \<and> (\<forall>c \<in> set (butlast cs). int (length c) = 2)
         \<and> (cs \<noteq> [] \<longrightarrow> 1 \<le> length (last cs) \<and> int (length (last cs)) \<le> 2)
         \<and> ([1, 2, 3, 4, 5 :: nat] = [] \<longrightarrow> cs = []))"
proof -
  have "divide [1, 2, 3, 4, 5 :: nat] 2 = Inr [[1, 2], [3, 4], [5]]"
    by (simp add: divide_def py_range_def range_up.simps py_slice_def clip_index_def)
  with divide_chunking [of 2 "[1, 2, 3, 4, 5 :: nat]"] show ?thesis by simp
qed

text \<open>
  C7. The docstring of \<^verbatim>\<open>divide\<close> promises \<^verbatim>\<open>ValueError\<close> for every \<open>n \<le> 0\<close>. A
  zero size does raise it (from \<^verbatim>\<open>range\<close>), but a negative size gives an empty
  \<^verbatim>\<open>range\<close> and so no chunk and no exception.
\<close>

theorem divide_negative_size:
  "divide [1, 2, 3 :: nat] (- 1) = Inr [] \<and> divide [1, 2, 3 :: nat] 0 = Inl ValueError"
  by (simp add: divide_def py_range_def range_down.simps)

section \<open>Reading and printing integers\<close>






















section \<open>The price normalizer\<close>

lemma py_split_first: "\<exists>ps. py_split sep s = takeWhile (\<lambda>c. c \<noteq> sep) s # ps"
  by (induction s) auto

lemma price_conversion_str:
  "price_conversion (PyStr s) = Inr (filter is_digit (takeWhile (\<lambda>c. c \<noteq> CHR ''.'') s))"
proof -
  obtain ps where "py_split CHR ''.'' s = takeWhile (\<lambda>c. c \<noteq> CHR ''.'') s # ps"
    using py_split_first by blast
  then show ?thesis by (simp add: re_sub_non_digits_def)
qed

text \<open>
  C4. On a string, \<^verbatim>\<open>price_conversion\<close> keeps what is before the first dot and
  deletes from it every character that is not one of the ten ASCII digits. The rouble
  sign of the first example is the three bytes E2 82 BD.
\<close>

theorem price_normalization:
  "price_conversion (PyStr s)
     = Inr (filter (\<lambda>c. c \<in> set ''0123456789'') (takeWhile (\<lambda>c. c \<noteq> CHR ''.'') s))
   \<and> price_conversion (PyStr (''1 234.56 '' @ [CHR 0xE2, CHR 0x82, CHR 0xBD])) = Inr ''1234''
   \<and> price_conversion (PyStr ''999'') = Inr ''999''"
proof -
  have "is_digit = (\<lambda>c. c \<in> set ''0123456789'')"
    by (rule ext) (simp only: is_digit_def)
  then have "price_conversion (PyStr s)
     = Inr (filter (\<lambda>c. c \<in> set ''0123456789'') (takeWhile (\<lambda>c. c \<noteq> CHR ''.'') s))"
    using price_conversion_str [of s] by simp
  moreover have
    "price_conversion (PyStr (''1 234.56 '' @ [CHR 0xE2, CHR 0x82, CHR 0xBD])) = Inr ''1234''"
    by (simp add: re_sub_non_digits_def is_digit_def)
  moreover have "price_conversion (PyStr ''999'') = Inr ''999''"
    by (simp add: re_sub_non_digits_def is_digit_def)
  ultimately show ?thesis by blast
qed

text \<open>
  C8. The docstring of \<^verbatim>\<open>price_conversion\<close> promises \<^verbatim>\<open>ValueError\<close> when the price is
  not a string or is the empty string. The code returns the empty string for the empty
  string, and for any string without a digit before its first dot; a value that is not
  a string raises \<^verbatim>\<open>AttributeError\<close>.
\<close>

theorem price_conversion_empty:
  "price_conversion (PyStr '''') = Inr ''''
   \<and> price_conversion (PyStr ''abc'') = Inr ''''
   \<and> price_conversion (PyStr ''.99'') = Inr ''''
   \<and> price_conversion (PyInt 5) = Inl AttributeError"
  by (simp add: re_sub_non_digits_def is_digit_def)

section \<open>The reconciler\<close>


lemma stocks_loop_ids:
  "stocks_loop ws acc ids = (Inr st, ids') \<Longrightarrow> distinct ids \<Longrightarrow>
   ids' = filter (\<lambda>i. i \<notin> watch_code ` set ws) ids"
proof (induction ws arbitrary: acc ids)
  case Nil
  then show ?case by simp
next
  case (Cons w ws)
  show ?case
  proof (cases "watch_code w \<in> set ids")
    case False
    with Cons.prems have "stocks_loop ws acc ids = (Inr st, ids')" by simp
    from Cons.IH [OF this Cons.prems(2)] have "ids' = filter (\<lambda>i. i \<notin> watch_code ` set ws) ids" .
    also have "\<dots> = filter (\<lambda>i. i \<notin> watch_code ` set (w # ws)) ids"
      using False by (intro filter_cong) auto
    finally show ?thesis .
  next
    case True
    with Cons.prems obtain n where
      run: "stocks_loop ws (acc @ [\<lparr>offer_id = watch_code w, stock = n\<rparr>]) (remove1 (watch_code w) ids)
            = (Inr st, ids')"
      by (auto split: sum.splits)
    have d: "distinct (remove1 (watch_code w) ids)" using Cons.prems(2) by simp
    have "remove1 (watch_code w) ids = filter (\<lambda>i. i \<noteq> watch_code w) ids"
      using Cons.prems(2) by (simp add: distinct_remove1_removeAll removeAll_filter_not_eq) metis
    with Cons.IH [OF run d] show ?thesis by (simp add: conj_commute)
  qed
qed






lemma market_stocks_loop_eq:
  "market_stocks_loop wh date ws (map (to_market wh date) acc) ids
   = (case stocks_loop ws acc ids of (r, ids') \<Rightarrow> (map_sum id (map (to_market wh date)) r, ids'))"
proof (induction ws arbitrary: acc ids)
  case Nil
  show ?case by simp
next
  case (Cons w ws)
  show ?case
  proof (cases "watch_code w \<in> set ids")
    case False
    with Cons show ?thesis by simp
  next
    case True
    show ?thesis
    proof (cases "quantity_stock (Kolichestvo w)")
      case (Inl e)
      with True show ?thesis by simp
    next
      case (Inr n)
      have "map (to_market wh date) acc @ [market_stock_of wh date (watch_code w) n]
          = map (to_market wh date) (acc @ [\<lparr>offer_id = watch_code w, stock = n\<rparr>])"
        by (simp add: to_market_def)
      with True Inr Cons.IH [of "acc @ [\<lparr>offer_id = watch_code w, stock = n\<rparr>]"]
      show ?thesis by simp
    qed
  qed
qed

lemma market_create_stocks_eq:
  "market_create_stocks date ws ids wh
   = (case create_stocks ws ids of (r, ids') \<Rightarrow> (map_sum id (map (to_market wh date)) r, ids'))"
proof -
  have "market_stocks_loop wh date ws [] ids
      = (case stocks_loop ws [] ids of (r, ids') \<Rightarrow> (map_sum id (map (to_market wh date)) r, ids'))"
    using market_stocks_loop_eq [of wh date ws "[]" ids] by simp
  then show ?thesis
    by (simp add: market_create_stocks_def create_stocks_def to_market_def
        split: prod.splits sum.splits)
qed


lemma create_stocks_shape:
  assumes "create_stocks ws ids = (Inr stocks, ids')"
  shows "\<exists>ms. stocks_loop ws [] ids = (Inr ms, ids')
              \<and> stocks = ms @ map (\<lambda>i. \<lparr>offer_id = i, stock = 0\<rparr>) ids'"
  using assms by (auto simp: create_stocks_def split: prod.splits sum.splits)


lemma example_create_stocks:
  "create_stocks example_inventory example_offer_ids = (Inr example_stocks, [''A3''])"
  by (simp add: example_inventory_def example_offer_ids_def example_stocks_def create_stocks_def
      quantity_stock_def str_of_int_def str_of_nat.simps digit_char_def)




section \<open>The quantity normalizer\<close>











lemma create_stocks_ids:
  assumes "create_stocks ws ids = (Inr stocks, ids')" and "distinct ids"
  shows "ids' = filter (\<lambda>i. i \<notin> watch_code ` set ws) ids"
proof -
  from create_stocks_shape [OF assms(1)] obtain ms where
    "stocks_loop ws [] ids = (Inr ms, ids')" by blast
  then show ?thesis using assms(2) by (rule stocks_loop_ids)
qed

lemma market_create_stocks_Inr:
  assumes "market_create_stocks date ws ids wh = (Inr mstocks, ids')"
  shows "\<exists>stocks. create_stocks ws ids = (Inr stocks, ids')
                 \<and> mstocks = map (to_market wh date) stocks"
proof -
  obtain r i where c: "create_stocks ws ids = (r, i)" by (cases "create_stocks ws ids")
  with assms have "map_sum id (map (to_market wh date)) r = Inr mstocks" "i = ids'"
    by (simp_all add: market_create_stocks_eq)
  then show ?thesis using c by (cases r) auto
qed

lemma example_market_create_stocks:
  "market_create_stocks date example_inventory example_offer_ids wh
   = (Inr (map (to_market wh date) example_stocks), [''A3''])"
  by (simp add: market_create_stocks_eq example_create_stocks)

text \<open>
  C3. \<^verbatim>\<open>create_stocks\<close> changes the caller's list: each matched row removes the first
  occurrence of its code. The list left is not always the ids without a row: an id
  listed twice is removed once, and a call that raises leaves the ids of the rows it
  had not reached.
\<close>

theorem create_stocks_duplicate_ids:
  "create_stocks [\<lparr>Kod = PyStr ''A1'', Kolichestvo = PyStr ''5'', Tsena = PyStr ''100''\<rparr>]
       [''A1'', ''A1'']
     = (Inr [\<lparr>offer_id = ''A1'', stock = 5\<rparr>, \<lparr>offer_id = ''A1'', stock = 0\<rparr>], [''A1''])
   \<and> create_stocks [\<lparr>Kod = PyStr ''A1'', Kolichestvo = PyStr ''5'', Tsena = PyStr ''100''\<rparr>,
                    \<lparr>Kod = PyStr ''A2'', Kolichestvo = PyStr '''', Tsena = PyStr ''100''\<rparr>]
       [''A1'', ''A2'']
     = (Inl ValueError, [''A2''])"
  by (simp add: create_stocks_def quantity_stock_def int_of_str_def strip_def is_space_def
      parse_literal_def is_digit_def digit_val_def)

text \<open>
  C3, as it holds: for a list of distinct ids and a call that returns, in both modules,
  the list left is the original list without the ids that are the code of a row, in the original
  order, and it differs from the original list as soon as one row matched.
\<close>

theorem create_stocks_consumes:
  assumes "distinct offer_ids"
  shows "(create_stocks ws offer_ids = (Inr stocks, ids') \<longrightarrow>
            ids' = filter (\<lambda>i. i \<notin> watch_code ` set ws) offer_ids
            \<and> ((\<exists>w \<in> set ws. watch_code w \<in> set offer_ids) \<longrightarrow> ids' \<noteq> offer_ids))
       \<and> (market_create_stocks date ws offer_ids wh = (Inr mstocks, ids'') \<longrightarrow>
            ids'' = filter (\<lambda>i. i \<notin> watch_code ` set ws) offer_ids
            \<and> ((\<exists>w \<in> set ws. watch_code w \<in> set offer_ids) \<longrightarrow> ids'' \<noteq> offer_ids))"
proof -
  have changed: "filter (\<lambda>i. i \<notin> watch_code ` set ws) offer_ids \<noteq> offer_ids"
    if "\<exists>w \<in> set ws. watch_code w \<in> set offer_ids"
  proof
    assume "filter (\<lambda>i. i \<notin> watch_code ` set ws) offer_ids = offer_ids"
    then have "\<forall>i \<in> set offer_ids. i \<notin> watch_code ` set ws" by (simp add: filter_id_conv)
    with that show False by blast
  qed
  have seller: "ids' = filter (\<lambda>i. i \<notin> watch_code ` set ws) offer_ids
      \<and> ((\<exists>w \<in> set ws. watch_code w \<in> set offer_ids) \<longrightarrow> ids' \<noteq> offer_ids)"
    if "create_stocks ws offer_ids = (Inr stocks, ids')"
    using create_stocks_ids [OF that assms] changed by simp
  have market: "ids'' = filter (\<lambda>i. i \<notin> watch_code ` set ws) offer_ids
      \<and> ((\<exists>w \<in> set ws. watch_code w \<in> set offer_ids) \<longrightarrow> ids'' \<noteq> offer_ids)"
    if "market_create_stocks date ws offer_ids wh = (Inr mstocks, ids'')"
  proof -
    from market_create_stocks_Inr [OF that] obtain st where
      "create_stocks ws offer_ids = (Inr st, ids'')" by blast
    from create_stocks_ids [OF this assms] changed show ?thesis by simp
  qed
  from seller market show ?thesis by blast
qed

theorem create_stocks_consumes_witness:
  "distinct example_offer_ids
   \<and> create_stocks example_inventory example_offer_ids = (Inr example_stocks, [''A3''])
   \<and> market_create_stocks ''2026-01-01T00:00:00Z'' example_inventory example_offer_ids ''w1''
       = (Inr (map (to_market ''w1'' ''2026-01-01T00:00:00Z'') example_stocks), [''A3''])
   \<and> [''A3''] = filter (\<lambda>i. i \<notin> watch_code ` set example_inventory) example_offer_ids
   \<and> (\<exists>w \<in> set example_inventory. watch_code w \<in> set example_offer_ids)
   \<and> [''A3''] \<noteq> example_offer_ids"
proof -
  have h1: "distinct example_offer_ids" by (simp add: example_offer_ids_def)
  note h2 = example_create_stocks
  note h3 = example_market_create_stocks [of "''2026-01-01T00:00:00Z''" "''w1''"]
  have h4: "\<exists>w \<in> set example_inventory. watch_code w \<in> set example_offer_ids"
    by (simp add: example_inventory_def example_offer_ids_def)
  note t = create_stocks_consumes [OF h1, of example_inventory example_stocks "[''A3'']"
      "''2026-01-01T00:00:00Z''" "''w1''" "map (to_market ''w1'' ''2026-01-01T00:00:00Z'') example_stocks"
      "[''A3'']"]
  from t h2 h3 h4 have "[''A3''] = filter (\<lambda>i. i \<notin> watch_code ` set example_inventory) example_offer_ids"
    and "[''A3''] \<noteq> example_offer_ids" by blast+
  with h1 h2 h3 h4 show ?thesis by blast
qed







section \<open>The upload\<close>

lemma submit_all_stops:
  "N < length bs \<Longrightarrow> submit_all upd (take N bs) w = (Inr (), wN) \<Longrightarrow>
   upd (bs ! N) wN = (Inl e, w') \<Longrightarrow> submit_all upd bs w = (Inl e, w')"
proof (induction bs arbitrary: N w)
  case Nil
  then show ?case by simp
next
  case (Cons b bs)
  show ?case
  proof (cases N)
    case 0
    with Cons.prems show ?thesis by simp
  next
    case (Suc k)
    with Cons.prems(2) obtain x w1 where
      b: "upd b w = (Inr x, w1)" and
      rest: "submit_all upd (take k bs) w1 = (Inr (), wN)"
      by (auto split: prod.splits sum.splits)
    from Cons.prems(1,3) Suc have "k < length bs" "upd (bs ! k) wN = (Inl e, w')" by simp_all
    from Cons.IH [OF this(1) rest this(2)] b show ?thesis by simp
  qed
qed

lemma http_send_posted:
  "http_send respond q w = (r, w') \<Longrightarrow> posted w' = posted w @ [q]"
  by (auto simp: http_send_def split: prod.splits)

lemma submit_all_posted:
  "submit_all (http_send respond) bs w = (Inr u, w') \<Longrightarrow> posted w' = posted w @ bs"
proof (induction bs arbitrary: w)
  case Nil
  then show ?case by simp
next
  case (Cons b bs)
  from Cons.prems obtain x w1 where
    b: "http_send respond b w = (Inr x, w1)" and
    rest: "submit_all (http_send respond) bs w1 = (Inr u, w')"
    by (auto split: prod.splits sum.splits)
  from Cons.IH [OF rest] http_send_posted [OF b] show ?case by simp
qed

lemma submit_all_http_fails:
  assumes "N < length bs"
    and "submit_all (http_send respond) (take N bs) w = (Inr (), wN)"
    and "fst (respond (bs ! N) (server wN)) = Inl e"
  shows "\<exists>w'. submit_all (http_send respond) bs w = (Inl e, w')
              \<and> posted wN = posted w @ take N bs
              \<and> posted w' = posted w @ take (Suc N) bs"
proof -
  obtain w' where send: "http_send respond (bs ! N) wN = (Inl e, w')"
    using assms(3) by (cases "respond (bs ! N) (server wN)") (simp add: http_send_def)
  have run: "submit_all (http_send respond) bs w = (Inl e, w')"
    using assms(1,2) send by (rule submit_all_stops)
  have pN: "posted wN = posted w @ take N bs"
    using assms(2) by (rule submit_all_posted)
  have "posted w' = posted wN @ [bs ! N]" using send by (rule http_send_posted)
  with pN assms(1) have "posted w' = posted w @ take (Suc N) bs"
    by (simp add: take_Suc_conv_app_nth)
  with run pN show ?thesis by blast
qed

lemma update_stocks_eq: "update_stocks respond = http_send respond"
  by (rule ext, rule ext) (simp add: update_stocks_def)

lemma market_update_stocks_eq: "market_update_stocks respond = http_send respond"
  by (rule ext, rule ext) (simp add: market_update_stocks_def)

lemma chunks_two:
  assumes "m < length xs" and "length xs \<le> 2 * m"
  shows "chunks m xs = [take m xs, drop m xs]"
proof -
  from assms have m: "m \<noteq> 0" and xs: "xs \<noteq> []" and d: "drop m xs \<noteq> []" by auto
  from assms have dd: "drop m (drop m xs) = []" by simp
  from assms have t: "take m (drop m xs) = drop m xs" by simp
  have "chunks m xs = take m xs # chunks m (drop m xs)"
    using m xs by (subst chunks.simps) simp
  also have "chunks m (drop m xs) = take m (drop m xs) # chunks m (drop m (drop m xs))"
    using m d by (subst chunks.simps) simp
  finally show ?thesis by (simp only: dd t chunks_Nil)
qed

lemma length_zero_stocks: "length (zero_stocks n) = n"
  by (simp add: zero_stocks_def numbered_ids_def)

lemma create_stocks_no_rows:
  "create_stocks [] (numbered_ids n) = (Inr (zero_stocks n), numbered_ids n)"
  by (simp add: create_stocks_def zero_stocks_def)

lemma market_create_stocks_no_rows:
  "market_create_stocks ''2026-01-01T00:00:00Z'' [] (numbered_ids 2001) ''w1''
   = (Inr market_zero_stocks, numbered_ids 2001)"
  by (simp add: market_create_stocks_eq create_stocks_no_rows market_zero_stocks_def)

lemma divide_seller_batches: "divide (zero_stocks 101) 100 = Inr seller_batches"
proof -
  have "chunks 100 (zero_stocks 101) = seller_batches"
    unfolding seller_batches_def by (rule chunks_two) (simp_all add: length_zero_stocks)
  with divide_chunks [of 100 "zero_stocks 101"] show ?thesis by simp
qed

lemma divide_market_batches: "divide market_zero_stocks 2000 = Inr market_batches"
proof -
  have "length market_zero_stocks = 2001"
    by (simp add: market_zero_stocks_def length_zero_stocks)
  then have "chunks 2000 market_zero_stocks = market_batches"
    unfolding market_batches_def by (intro chunks_two) simp_all
  with divide_chunks [of 2000 market_zero_stocks] show ?thesis by simp
qed

text \<open>
  C6. \<^verbatim>\<open>upload_stocks\<close>, in both modules: when the catalogue is read, the stock
  records are built and cut into batches, the first \<open>N\<close> batches are accepted and the
  server answers the next one with the error \<open>e\<close>, then the call ends with \<open>e\<close>, and
  the payloads sent during the submission are exactly the first \<open>N + 1\<close> batches, each
  once and in order: the accepted ones, then the failing one. No later batch is sent and
  none is sent again.
\<close>

theorem upload_stops_at_failure:
  "(get_offer_ids w0 = (Inr offer_ids, w1)
      \<and> create_stocks watch_remnants offer_ids = (Inr stocks, ids')
      \<and> divide stocks 100 = Inr batches
      \<and> N < length batches
      \<and> submit_all (update_stocks respond) (take N batches) w1 = (Inr (), wN)
      \<and> fst (respond (batches ! N) (server wN)) = Inl e
    \<longrightarrow> (\<exists>w'. upload_stocks get_offer_ids respond watch_remnants w0 = (Inl e, w')
              \<and> posted wN = posted w1 @ take N batches
              \<and> posted w' = posted w1 @ take (Suc N) batches))
   \<and> (mget_offer_ids m0 = (Inr moffer_ids, m1)
      \<and> market_create_stocks date watch_remnants moffer_ids warehouse_id = (Inr mstocks, mids')
      \<and> divide mstocks 2000 = Inr mbatches
      \<and> M < length mbatches
      \<and> submit_all (market_update_stocks mrespond) (take M mbatches) m1 = (Inr (), mN)
      \<and> fst (mrespond (mbatches ! M) (server mN)) = Inl me
    \<longrightarrow> (\<exists>m'. market_upload_stocks mget_offer_ids mrespond date watch_remnants warehouse_id m0
                 = (Inl me, m')
              \<and> posted mN = posted m1 @ take M mbatches
              \<and> posted m' = posted m1 @ take (Suc M) mbatches))"
proof (intro conjI impI)
  assume h: "get_offer_ids w0 = (Inr offer_ids, w1)
      \<and> create_stocks watch_remnants offer_ids = (Inr stocks, ids')
      \<and> divide stocks 100 = Inr batches
      \<and> N < length batches
      \<and> submit_all (update_stocks respond) (take N batches) w1 = (Inr (), wN)
      \<and> fst (respond (batches ! N) (server wN)) = Inl e"
  then have "N < length batches"
    and "submit_all (http_send respond) (take N batches) w1 = (Inr (), wN)"
    and "fst (respond (batches ! N) (server wN)) = Inl e"
    by (simp_all add: update_stocks_eq)
  from submit_all_http_fails [OF this] obtain w' where
    run: "submit_all (http_send respond) batches w1 = (Inl e, w')" and
    p: "posted wN = posted w1 @ take N batches" "posted w' = posted w1 @ take (Suc N) batches"
    by blast
  from h run have "upload_stocks get_offer_ids respond watch_remnants w0 = (Inl e, w')"
    by (simp add: upload_stocks_def update_stocks_eq)
  with p show "\<exists>w'. upload_stocks get_offer_ids respond watch_remnants w0 = (Inl e, w')
              \<and> posted wN = posted w1 @ take N batches
              \<and> posted w' = posted w1 @ take (Suc N) batches"
    by blast
next
  assume h: "mget_offer_ids m0 = (Inr moffer_ids, m1)
      \<and> market_create_stocks date watch_remnants moffer_ids warehouse_id = (Inr mstocks, mids')
      \<and> divide mstocks 2000 = Inr mbatches
      \<and> M < length mbatches
      \<and> submit_all (market_update_stocks mrespond) (take M mbatches) m1 = (Inr (), mN)
      \<and> fst (mrespond (mbatches ! M) (server mN)) = Inl me"
  then have "M < length mbatches"
    and "submit_all (http_send mrespond) (take M mbatches) m1 = (Inr (), mN)"
    and "fst (mrespond (mbatches ! M) (server mN)) = Inl me"
    by (simp_all add: market_update_stocks_eq)
  from submit_all_http_fails [OF this] obtain m' where
    run: "submit_all (http_send mrespond) mbatches m1 = (Inl me, m')" and
    p: "posted mN = posted m1 @ take M mbatches" "posted m' = posted m1 @ take (Suc M) mbatches"
    by blast
  from h run have
    "market_upload_stocks mget_offer_ids mrespond date watch_remnants warehouse_id m0 = (Inl me, m')"
    by (simp add: market_upload_stocks_def market_update_stocks_eq)
  with p show "\<exists>m'. market_upload_stocks mget_offer_ids mrespond date watch_remnants warehouse_id m0
                 = (Inl me, m')
              \<and> posted mN = posted m1 @ take M mbatches
              \<and> posted m' = posted m1 @ take (Suc M) mbatches"
    by blast
qed

theorem upload_stops_at_failure_witness:
  "catalogue (numbered_ids 101) seller_world = (Inr (numbered_ids 101), seller_world)
   \<and> create_stocks [] (numbered_ids 101) = (Inr (zero_stocks 101), numbered_ids 101)
   \<and> divide (zero_stocks 101) 100 = Inr seller_batches
   \<and> 1 < length seller_batches
   \<and> submit_all (update_stocks second_fails) (take 1 seller_batches) seller_world
       = (Inr (), \<lparr>posted = take 1 seller_batches, server = 1\<rparr>)
   \<and> fst (second_fails (seller_batches ! 1) (server \<lparr>posted = take 1 seller_batches, server = 1\<rparr>))
       = Inl HTTPError
   \<and> (\<exists>w'. upload_stocks (catalogue (numbered_ids 101)) second_fails [] seller_world
              = (Inl HTTPError, w')
          \<and> posted w' = take 2 seller_batches)
   \<and> catalogue (numbered_ids 2001) market_world = (Inr (numbered_ids 2001), market_world)
   \<and> market_create_stocks ''2026-01-01T00:00:00Z'' [] (numbered_ids 2001) ''w1''
       = (Inr market_zero_stocks, numbered_ids 2001)
   \<and> divide market_zero_stocks 2000 = Inr market_batches
   \<and> 1 < length market_batches
   \<and> submit_all (market_update_stocks second_fails) (take 1 market_batches) market_world
       = (Inr (), \<lparr>posted = take 1 market_batches, server = 1\<rparr>)
   \<and> fst (second_fails (market_batches ! 1) (server \<lparr>posted = take 1 market_batches, server = 1\<rparr>))
       = Inl HTTPError
   \<and> (\<exists>m'. market_upload_stocks (catalogue (numbered_ids 2001)) second_fails
              ''2026-01-01T00:00:00Z'' [] ''w1'' market_world = (Inl HTTPError, m')
          \<and> posted m' = take 2 market_batches)"
proof -
  have s1: "catalogue (numbered_ids 101) seller_world = (Inr (numbered_ids 101), seller_world)"
    by (simp add: catalogue_def)
  note s2 = create_stocks_no_rows [of 101]
  note s3 = divide_seller_batches
  have s4: "1 < length seller_batches" by (simp add: seller_batches_def)
  have s5: "submit_all (update_stocks second_fails) (take 1 seller_batches) seller_world
       = (Inr (), \<lparr>posted = take 1 seller_batches, server = 1\<rparr>)"
    by (simp add: seller_batches_def update_stocks_def http_send_def second_fails_def
        seller_world_def market_world_def)
  have s6: "fst (second_fails (seller_batches ! 1)
        (server \<lparr>posted = take 1 seller_batches, server = 1 :: nat\<rparr>)) = Inl HTTPError"
    by (simp add: second_fails_def)
  have m1: "catalogue (numbered_ids 2001) market_world = (Inr (numbered_ids 2001), market_world)"
    by (simp add: catalogue_def)
  note m2 = market_create_stocks_no_rows
  note m3 = divide_market_batches
  have m4: "1 < length market_batches" by (simp add: market_batches_def)
  have m5: "submit_all (market_update_stocks second_fails) (take 1 market_batches) market_world
       = (Inr (), \<lparr>posted = take 1 market_batches, server = 1\<rparr>)"
    by (simp add: market_batches_def market_update_stocks_def http_send_def second_fails_def
        seller_world_def market_world_def)
  have m6: "fst (second_fails (market_batches ! 1)
        (server \<lparr>posted = take 1 market_batches, server = 1 :: nat\<rparr>)) = Inl HTTPError"
    by (simp add: second_fails_def)
  note t = upload_stops_at_failure [of "catalogue (numbered_ids 101)" seller_world "numbered_ids 101" seller_world
      "[]" "zero_stocks 101" "numbered_ids 101" seller_batches 1 second_fails
      "\<lparr>posted = take 1 seller_batches, server = 1\<rparr>" HTTPError
      "catalogue (numbered_ids 2001)" market_world "numbered_ids 2001" market_world
      "''2026-01-01T00:00:00Z''" "''w1''" market_zero_stocks "numbered_ids 2001" market_batches 1
      second_fails "\<lparr>posted = take 1 market_batches, server = 1\<rparr>" HTTPError]
  have spost: "posted seller_world = []" by (simp add: seller_world_def)
  have mpost: "posted market_world = []" by (simp add: market_world_def)
  have two: "Suc 1 = 2" by simp
  from t [THEN conjunct1, THEN mp, OF conjI [OF s1 conjI [OF s2 conjI [OF s3 conjI [OF s4
    conjI [OF s5 s6]]]]]]
  have sc: "\<exists>w'. upload_stocks (catalogue (numbered_ids 101)) second_fails [] seller_world
              = (Inl HTTPError, w')
          \<and> posted w' = take 2 seller_batches"
    unfolding spost two by auto
  from t [THEN conjunct2, THEN mp, OF conjI [OF m1 conjI [OF m2 conjI [OF m3 conjI [OF m4
    conjI [OF m5 m6]]]]]]
  have mc: "\<exists>m'. market_upload_stocks (catalogue (numbered_ids 2001)) second_fails
              ''2026-01-01T00:00:00Z'' [] ''w1'' market_world = (Inl HTTPError, m')
          \<and> posted m' = take 2 market_batches"
    unfolding mpost two by auto
  show ?thesis by (intro conjI s1 s2 s3 s4 s5 s6 sc m1 m2 m3 m4 m5 m6 mc)
qed

end
